theory Spec2Isabelle
  imports Main
begin

section \<open>Errors\<close>

text \<open>
  The handlers build their own errors with \<^verbatim>\<open>errors.New(logruswrapper.CodeX)\<close>; every
  other error comes back from a collaborator (the MongoDB driver, the Redis client, the
  token checker) and is passed around as an opaque value.
\<close>

datatype code = CodeSuccess | CodeInvalidToken | CodeUpdated | CodeAlreadyExists | CodeInvalidJSON

datatype error =
    ErrCode code
  | DuplicateKey string
  | External string

section \<open>Documents of the two collections\<close>

text \<open>
  An entry of \<^verbatim>\<open>publish_acl\<close> / \<^verbatim>\<open>subscribe_acl\<close> is either the sub-document
  \<^verbatim>\<open>{pattern: p}\<close> that \<^verbatim>\<open>UpdateProfilesWithGroupACL\<close> pushes, or the bare string
  that \<^verbatim>\<open>AuthorizePublishing\<close> pushes.
\<close>

datatype acl_value = Pattern string | Topic string

text \<open>
  Modelled from the spec: the struct \<^verbatim>\<open>VerneMQACL\<close> is declared outside the files at
  hand. The spec's ACLRecord is \<^verbatim>\<open>{clientID, passwordHash, publishACL, subscribeACL}\<close>;
  the field names are the BSON keys that the filters and updates of the store name
  (\<^verbatim>\<open>client_id\<close>, \<^verbatim>\<open>passhash\<close>, \<^verbatim>\<open>publish_acl\<close>, \<^verbatim>\<open>subscribe_acl\<close>), and
  \<^verbatim>\<open>username\<close> is the second argument of \<^verbatim>\<open>NewVerneMQACL\<close>.
\<close>

record VerneMQACL =
  client_id :: string
  username :: string
  passhash :: string
  publish_acl :: "acl_value list"
  subscribe_acl :: "acl_value list"

text \<open>
  Modelled from the spec: the struct \<^verbatim>\<open>GroupConversation\<close> is declared outside the files
  at hand. The spec's GroupConversation is \<^verbatim>\<open>{groupID, name, members}\<close>; the store reads
  \<^verbatim>\<open>GroupConversationID\<close> and \<^verbatim>\<open>Members\<close>.
\<close>

record GroupConversation =
  GroupConversationID :: string
  Name :: string
  Members :: "string list"

section \<open>The document store as the driver shows it\<close>

text \<open>
  The update documents that the code sends: a \<^verbatim>\<open>$push\<close> on one of the two ACL arrays, or a
  \<^verbatim>\<open>$set\<close> of \<^verbatim>\<open>passhash\<close>. An update document is a list of them, in the order of the
  elements of \<^verbatim>\<open>NewDocument\<close>: the document of \<^verbatim>\<open>UpdateProfilesWithGroupACL\<close> has two
  elements with the key \<^verbatim>\<open>$push\<close>, and the server applies one after the other.
\<close>

datatype update_op =
    Push_publish_acl acl_value
  | Push_subscribe_acl acl_value
  | Set_passhash string

datatype command =
    InsertACL VerneMQACL
  | InsertGroup GroupConversation
  | UpdateACL string "update_op list"

text \<open>
  The state behind \<^verbatim>\<open>*MongoDB\<close>: the documents of the two collections that the code
  writes, in insertion order; whether the deployment declared a unique index on
  \<^verbatim>\<open>client_id\<close> of \<^verbatim>\<open>vmq_acl_auth\<close> (the code declares no index); the outcome that the
  environment gives to each coming driver round trip (\<open>None\<close>: the server runs the
  command; \<open>Some e\<close>: the driver returns \<open>e\<close> and nothing is written; an exhausted list
  means no further fault); and the commands handed to the driver so far.
\<close>

record MongoDB =
  VerneMQACLCollection :: "VerneMQACL list"
  GroupConversationCollection :: "GroupConversation list"
  unique_client_id :: bool
  driver_faults :: "error option list"
  oplog :: "command list"

definition next_fault :: "MongoDB \<Rightarrow> error option" where
  "next_fault m = (case driver_faults m of [] \<Rightarrow> None | f # _ \<Rightarrow> f)"

definition round_trip :: "command \<Rightarrow> MongoDB \<Rightarrow> MongoDB" where
  "round_trip c m = m\<lparr>driver_faults := tl (driver_faults m), oplog := oplog m @ [c]\<rparr>"

text \<open>\<^verbatim>\<open>bson.Marshal\<close> of a struct of strings and string slices has no failing input.\<close>

definition Marshal :: "'a \<Rightarrow> error + 'a" where
  "Marshal x = Inr x"

text \<open>
  \<^verbatim>\<open>VerneMQACLCollection.InsertOne\<close>: the document is appended, unless the driver fails or
  a unique index on \<^verbatim>\<open>client_id\<close> rejects it.
\<close>

definition InsertOne_acl :: "VerneMQACL \<Rightarrow> MongoDB \<Rightarrow> error option \<times> MongoDB" where
  "InsertOne_acl doc m =
     (let m' = round_trip (InsertACL doc) m in
      case next_fault m of
        Some e \<Rightarrow> (Some e, m')
      | None \<Rightarrow>
          if unique_client_id m \<and> client_id doc \<in> set (map client_id (VerneMQACLCollection m))
          then (Some (DuplicateKey (client_id doc)), m')
          else (None, m'\<lparr>VerneMQACLCollection := VerneMQACLCollection m @ [doc]\<rparr>))"

text \<open>\<^verbatim>\<open>GroupConversationCollection.InsertOne\<close>: no index but the generated \<^verbatim>\<open>_id\<close>.\<close>

definition InsertOne_group :: "GroupConversation \<Rightarrow> MongoDB \<Rightarrow> error option \<times> MongoDB" where
  "InsertOne_group doc m =
     (let m' = round_trip (InsertGroup doc) m in
      case next_fault m of
        Some e \<Rightarrow> (Some e, m')
      | None \<Rightarrow> (None, m'\<lparr>GroupConversationCollection := GroupConversationCollection m @ [doc]\<rparr>))"

fun apply_op :: "update_op \<Rightarrow> VerneMQACL \<Rightarrow> VerneMQACL" where
  "apply_op (Push_publish_acl v) d = d\<lparr>publish_acl := publish_acl d @ [v]\<rparr>"
| "apply_op (Push_subscribe_acl v) d = d\<lparr>subscribe_acl := subscribe_acl d @ [v]\<rparr>"
| "apply_op (Set_passhash h) d = d\<lparr>passhash := h\<rparr>"

fun apply_update :: "update_op list \<Rightarrow> VerneMQACL \<Rightarrow> VerneMQACL" where
  "apply_update [] d = d"
| "apply_update (u # us) d = apply_update us (apply_op u d)"

text \<open>
  \<^verbatim>\<open>UpdateOne\<close> with the filter \<^verbatim>\<open>{client_id: userID}\<close> changes the first document that
  matches, and none when no document matches; the latter is not an error of the driver.
\<close>

fun update_first :: "string \<Rightarrow> update_op list \<Rightarrow> VerneMQACL list \<Rightarrow> VerneMQACL list" where
  "update_first userID upd [] = []"
| "update_first userID upd (d # ds) =
     (if client_id d = userID then apply_update upd d # ds
      else d # update_first userID upd ds)"

definition UpdateOne :: "string \<Rightarrow> update_op list \<Rightarrow> MongoDB \<Rightarrow> error option \<times> MongoDB" where
  "UpdateOne userID upd m =
     (let m' = round_trip (UpdateACL userID upd) m in
      case next_fault m of
        Some e \<Rightarrow> (Some e, m')
      | None \<Rightarrow>
          (None, m'\<lparr>VerneMQACLCollection := update_first userID upd (VerneMQACLCollection m)\<rparr>))"

section \<open>The access-control store\<close>

definition AddGroupConversation :: "GroupConversation \<Rightarrow> MongoDB \<Rightarrow> error option \<times> MongoDB" where
  "AddGroupConversation groupConversation mongoDB =
     (case Marshal groupConversation of
        Inl err \<Rightarrow> (Some err, mongoDB)
      | Inr doc \<Rightarrow>
          (case InsertOne_group doc mongoDB of
             (Some err, m) \<Rightarrow> (Some err, m)
           | (None, m) \<Rightarrow> (None, m)))"

definition AddProfileACL :: "VerneMQACL \<Rightarrow> MongoDB \<Rightarrow> error option \<times> MongoDB" where
  "AddProfileACL verneMQACL mongoDB =
     (case Marshal verneMQACL of
        Inl err \<Rightarrow> (Some err, mongoDB)
      | Inr doc \<Rightarrow>
          (case InsertOne_acl doc mongoDB of
             (Some err, m) \<Rightarrow> (Some err, m)
           | (None, m) \<Rightarrow> (None, m)))"

definition AuthorizePublishing :: "string \<Rightarrow> string \<Rightarrow> MongoDB \<Rightarrow> error option \<times> MongoDB" where
  "AuthorizePublishing userID topic mongoDB =
     (case UpdateOne userID [Push_publish_acl (Topic topic)] mongoDB of
        (Some err, m) \<Rightarrow> (Some err, m)
      | (None, m) \<Rightarrow> (None, m))"

text \<open>
  The update document of one member of a group: two \<^verbatim>\<open>$push\<close> elements. The constant
  \<^verbatim>\<open>GroupConversationTopicPath\<close> is declared outside the files at hand and is the
  parameter \<open>topicPath\<close>; the code puts no separator between it and the group's id.
\<close>

definition group_update :: "string \<Rightarrow> string \<Rightarrow> string \<Rightarrow> update_op list" where
  "group_update topicPath groupID userID =
     [Push_publish_acl (Pattern (topicPath @ groupID @ ''/'' @ userID)),
      Push_subscribe_acl (Pattern (topicPath @ groupID @ ''/+''))]"

fun grant_members :: "string \<Rightarrow> string \<Rightarrow> string list \<Rightarrow> MongoDB \<Rightarrow> error option \<times> MongoDB" where
  "grant_members topicPath groupID [] mongoDB = (None, mongoDB)"
| "grant_members topicPath groupID (userID # rest) mongoDB =
     (case UpdateOne userID (group_update topicPath groupID userID) mongoDB of
        (Some err, m) \<Rightarrow> (Some err, m)
      | (None, m) \<Rightarrow> grant_members topicPath groupID rest m)"

definition UpdateProfilesWithGroupACL ::
  "string \<Rightarrow> GroupConversation \<Rightarrow> MongoDB \<Rightarrow> error option \<times> MongoDB" where
  "UpdateProfilesWithGroupACL topicPath groupConversation mongoDB =
     grant_members topicPath (GroupConversationID groupConversation)
       (Members groupConversation) mongoDB"

definition UpdatePassHash :: "string \<Rightarrow> string \<Rightarrow> MongoDB \<Rightarrow> error option \<times> MongoDB" where
  "UpdatePassHash userID newPasshash mongoDB =
     (case UpdateOne userID [Set_passhash newPasshash] mongoDB of
        (Some err, m) \<Rightarrow> (Some err, m)
      | (None, m) \<Rightarrow> (None, m))"

section \<open>What the handlers are given\<close>

text \<open>
  Modelled from the spec: the struct that \<^verbatim>\<open>auth.CheckAuthentication\<close> returns is declared
  outside the files at hand; the spec's ClientIdentity is
  \<^verbatim>\<open>{clientID, username, passwordHash}\<close> and the handlers read \<^verbatim>\<open>ClientID\<close>,
  \<^verbatim>\<open>Username\<close> and \<^verbatim>\<open>Password\<close>.
\<close>

record MQTTAuthInfos =
  ClientID :: string
  Username :: string
  Password :: string

text \<open>
  Modelled from the spec: the Redis client is declared outside the files at hand. The
  spec's Identity Cache offers \<^verbatim>\<open>Exists(key) -> (bool, error)\<close> and
  \<^verbatim>\<open>Get(key, field) -> (value, error)\<close>; a Go call returns both components, and the
  handlers decide which of them they read.
\<close>

record Redis =
  Exists :: "string \<Rightarrow> bool \<times> error option"
  HGet :: "string \<Rightarrow> string \<Rightarrow> string \<times> error option"

record Env =
  Redis :: Redis
  MongoDB :: MongoDB

text \<open>
  The functions and constants of the repository that the handlers call and that are
  declared outside the files at hand are parameters: the token format check, the
  authentication check (which may write to the cache and to the store before it
  returns), the default ACLs of \<^verbatim>\<open>NewVerneMQACL\<close>, the topic prefix of group
  conversations, and the identifier that \<^verbatim>\<open>NewGroupConversation\<close> gives a new group.
\<close>

record Collaborators =
  IsTokenValid :: "Env \<Rightarrow> string \<Rightarrow> bool \<times> error option"
  CheckAuthentication :: "Env \<Rightarrow> string \<Rightarrow> (MQTTAuthInfos \<times> bool \<times> bool \<times> error option) \<times> Env"
  default_publish_acl :: "acl_value list"
  default_subscribe_acl :: "acl_value list"
  GroupConversationTopicPath :: string
  NewGroupConversationID :: "string \<Rightarrow> string list \<Rightarrow> string"

text \<open>
  Modelled from the spec: \<^verbatim>\<open>NewVerneMQACL\<close> is declared outside the files at hand; the
  handler's comment says that it builds the ACL of a user from the authentication infos
  and the default ACLs.
\<close>

definition NewVerneMQACL :: "Collaborators \<Rightarrow> string \<Rightarrow> string \<Rightarrow> string \<Rightarrow> VerneMQACL" where
  "NewVerneMQACL c clientID user password =
     \<lparr>client_id = clientID, username = user, passhash = password,
      publish_acl = default_publish_acl c, subscribe_acl = default_subscribe_acl c\<rparr>"

text \<open>
  Modelled from the spec: \<^verbatim>\<open>NewGroupConversation\<close> is declared outside the files at hand;
  it is given the name and the members, and the store reads an identifier from its result.
\<close>

definition NewGroupConversation :: "Collaborators \<Rightarrow> string \<Rightarrow> string list \<Rightarrow> GroupConversation" where
  "NewGroupConversation c name members =
     \<lparr>GroupConversationID = NewGroupConversationID c name members, Name = name, Members = members\<rparr>"

record GroupConversationBody =
  body_Name :: string
  body_Members :: "string list"

record MappingRequestBody =
  UserIDs :: "string list"

record Mapping =
  OriginalUserID :: string
  InternalWaveUserID :: string

text \<open>
  A request is its \<^verbatim>\<open>token\<close> header and the outcome of decoding its JSON body. What a
  handler writes with \<^verbatim>\<open>WriteResponse\<close> is a payload with the route and the code of the
  log entry.
\<close>

record 'b Request =
  header_token :: string
  decoded_body :: "error + 'b"

datatype payload = Nil_payload | ClientID_payload string | Mappings_payload "Mapping list"

datatype response = Response payload string code

type_synonym handler_result = "(error option \<times> response option) \<times> Env"

section \<open>The handlers\<close>

definition AddVerneMQACL :: "Collaborators \<Rightarrow> Env \<Rightarrow> 'b Request \<Rightarrow> handler_result" where
  "AddVerneMQACL c env r =
     (let token = header_token r in
      case IsTokenValid c env token of
        (tokenHasValidFormat, Some err) \<Rightarrow> ((Some err, None), env)
      | (tokenHasValidFormat, None) \<Rightarrow>
          if \<not> tokenHasValidFormat then ((Some (ErrCode CodeInvalidToken), None), env)
          else
            (case CheckAuthentication c env token of
               ((infos, wasCached, wasTokenUpdated, Some err), env1) \<Rightarrow>
                 ((Some (ErrCode CodeInvalidToken), None), env1)
             | ((infos, wasCached, wasTokenUpdated, None), env1) \<Rightarrow>
                 if wasTokenUpdated then ((Some (ErrCode CodeUpdated), None), env1)
                 else if wasCached then ((Some (ErrCode CodeAlreadyExists), None), env1)
                 else
                   (let verneMQACL =
                          NewVerneMQACL c (ClientID infos) (Username infos) (Password infos)
                    in case AddProfileACL verneMQACL (MongoDB env1) of
                         (Some err, m) \<Rightarrow>
                           ((Some (ErrCode CodeInvalidToken), None), env1\<lparr>MongoDB := m\<rparr>)
                       | (None, m) \<Rightarrow>
                           ((None, Some (Response (ClientID_payload (ClientID infos))
                                          ''/helloworld'' CodeSuccess)),
                            env1\<lparr>MongoDB := m\<rparr>))))"

text \<open>
  The loop over \<^verbatim>\<open>reqBody.Members\<close>. \<^verbatim>\<open>tmp := reqBody.Members[:0]\<close> shares the array of
  the slice that the loop ranges over: \<open>arr\<close> is that array, \<open>n\<close> is \<^verbatim>\<open>len(tmp)\<close> and
  \<open>i\<close> is the index of the range. \<^verbatim>\<open>append(tmp, v)\<close> writes \<open>v\<close> at index \<open>n\<close> of the
  shared array, and the range reads element \<open>i\<close> from the array as it is then. At most
  one element is appended per round, so \<open>n \<le> i\<close> holds at every append and the write
  is below the capacity: \<^verbatim>\<open>append\<close> never moves \<^verbatim>\<open>tmp\<close> to a new array. Both
  \<^verbatim>\<open>fmt.Println\<close> calls only print.
\<close>

function members_loop ::
  "Redis \<Rightarrow> string \<Rightarrow> string list \<Rightarrow> nat \<Rightarrow> nat \<Rightarrow> error + (string list \<times> nat)" where
  "members_loop redis clientID arr n i =
     (if i < length arr then
        (case Exists redis (''mapping:'' @ arr ! i) of
           (doesExist, Some err) \<Rightarrow> Inl (ErrCode CodeInvalidJSON)
         | (doesExist, None) \<Rightarrow>
             if doesExist then
               (case HGet redis (''mapping:'' @ arr ! i) ''internalWaveUserID'' of
                  (internalWaveUserID, Some err) \<Rightarrow> Inl (ErrCode CodeInvalidJSON)
                | (internalWaveUserID, None) \<Rightarrow>
                    if internalWaveUserID \<noteq> clientID
                    then members_loop redis clientID (arr[n := internalWaveUserID]) (Suc n) (Suc i)
                    else members_loop redis clientID arr n (Suc i))
             else members_loop redis clientID arr n (Suc i))
      else Inr (arr, n))"
  by pat_completeness auto
termination
  by (relation "measure (\<lambda>(redis, clientID, arr, n, i). length arr - i)") auto

declare members_loop.simps [simp del]

definition AddGroupConversation_handler ::
  "Collaborators \<Rightarrow> Env \<Rightarrow> GroupConversationBody Request \<Rightarrow> handler_result" where
  "AddGroupConversation_handler c env r =
     (let token = header_token r in
      case IsTokenValid c env token of
        (tokenHasValidFormat, Some err) \<Rightarrow> ((Some err, None), env)
      | (tokenHasValidFormat, None) \<Rightarrow>
          if \<not> tokenHasValidFormat then ((Some (ErrCode CodeInvalidToken), None), env)
          else
            (case CheckAuthentication c env token of
               ((infos, wasCached, wasTokenUpdated, Some err), env1) \<Rightarrow>
                 ((Some (ErrCode CodeInvalidToken), None), env1)
             | ((infos, wasCached, wasTokenUpdated, None), env1) \<Rightarrow>
                 (case decoded_body r of
                    Inl err \<Rightarrow> ((Some (ErrCode CodeInvalidJSON), None), env1)
                  | Inr reqBody \<Rightarrow>
                      (case members_loop (Redis env1) (ClientID infos) (body_Members reqBody) 0 0 of
                         Inl err \<Rightarrow> ((Some err, None), env1)
                       | Inr (arr, n) \<Rightarrow>
                           (let groupConv = NewGroupConversation c (body_Name reqBody)
                                              (take n arr @ [ClientID infos]);
                                (err1, m1) = AddGroupConversation groupConv (MongoDB env1);
                                (err2, m2) = UpdateProfilesWithGroupACL
                                               (GroupConversationTopicPath c) groupConv m1
                            in case err2 of
                                 Some err \<Rightarrow>
                                   ((Some (ErrCode CodeInvalidToken), None), env1\<lparr>MongoDB := m2\<rparr>)
                               | None \<Rightarrow>
                                   ((None, Some (Response Nil_payload ''/helloworld'' CodeSuccess)),
                                    env1\<lparr>MongoDB := m2\<rparr>))))))"

fun collect_mappings :: "Redis \<Rightarrow> string list \<Rightarrow> Mapping list \<Rightarrow> Mapping list" where
  "collect_mappings redis [] mappings = mappings"
| "collect_mappings redis (userID # rest) mappings =
     (case HGet redis (''mapping:'' @ userID) ''internalWaveUserID'' of
        (internalWaveUserID, err) \<Rightarrow>
          collect_mappings redis rest
            (if internalWaveUserID \<noteq> []
             then mappings @ [\<lparr>OriginalUserID = userID, InternalWaveUserID = internalWaveUserID\<rparr>]
             else mappings))"

definition GetMappingForUsers ::
  "Collaborators \<Rightarrow> Env \<Rightarrow> MappingRequestBody Request \<Rightarrow> handler_result" where
  "GetMappingForUsers c env r =
     (let token = header_token r in
      case IsTokenValid c env token of
        (tokenHasValidFormat, Some err) \<Rightarrow> ((Some err, None), env)
      | (tokenHasValidFormat, None) \<Rightarrow>
          if \<not> tokenHasValidFormat then ((Some (ErrCode CodeInvalidToken), None), env)
          else
            (case CheckAuthentication c env token of
               ((infos, wasCached, wasTokenUpdated, Some err), env1) \<Rightarrow>
                 ((Some (ErrCode CodeInvalidToken), None), env1)
             | ((infos, wasCached, wasTokenUpdated, None), env1) \<Rightarrow>
                 (case decoded_body r of
                    Inl err \<Rightarrow> ((Some (ErrCode CodeInvalidJSON), None), env1)
                  | Inr reqBody \<Rightarrow>
                      ((None, Some (Response
                                (Mappings_payload (collect_mappings (Redis env1) (UserIDs reqBody) []))
                                ''/profiles/mappings'' CodeSuccess)),
                       env1))))"

section \<open>Vocabulary of the statements\<close>

text \<open>
  \<open>fault_free k m\<close>: the environment lets the next \<open>k\<close> driver round trips through.
\<close>

definition fault_free :: "nat \<Rightarrow> MongoDB \<Rightarrow> bool" where
  "fault_free k m = list_all (\<lambda>f. f = None) (take k (driver_faults m))"

text \<open>
  What a run of \<^verbatim>\<open>UpdateProfilesWithGroupACL\<close> without driver fault leaves in
  \<^verbatim>\<open>vmq_acl_auth\<close>: one update per member, in the order of the members.
\<close>

fun grant_docs :: "string \<Rightarrow> string \<Rightarrow> string list \<Rightarrow> VerneMQACL list \<Rightarrow> VerneMQACL list" where
  "grant_docs topicPath groupID [] ds = ds"
| "grant_docs topicPath groupID (u # us) ds =
     grant_docs topicPath groupID us (update_first u (group_update topicPath groupID u) ds)"

text \<open>
  \<open>lookup_ok redis member\<close>: the cache answers the lookups that the loop of
  \<^verbatim>\<open>AddGroupConversation\<close> makes for \<open>member\<close> without an error. \<open>resolved_ids\<close> is what
  the cache gives for the handles it knows, in the order of the request.
\<close>

definition lookup_ok :: "Redis \<Rightarrow> string \<Rightarrow> bool" where
  "lookup_ok redis member =
     (snd (Exists redis (''mapping:'' @ member)) = None \<and>
      (if fst (Exists redis (''mapping:'' @ member))
       then snd (HGet redis (''mapping:'' @ member) ''internalWaveUserID'') = None
       else True))"

definition resolved_ids :: "Redis \<Rightarrow> string list \<Rightarrow> string list" where
  "resolved_ids redis members =
     map (\<lambda>member. fst (HGet redis (''mapping:'' @ member) ''internalWaveUserID''))
       (filter (\<lambda>member. fst (Exists redis (''mapping:'' @ member))) members)"

section \<open>Test doubles and example data\<close>

text \<open>
  A cache filled from a table of keys, which answers every lookup without a transport
  error and gives the \<^verbatim>\<open>nil returned\<close> error of the client for a missing hash; a
  store with given ACL records and fault schedule; collaborators that accept every token
  and authenticate it as a given user with a given cache outcome.
\<close>

definition cache_of :: "(string \<times> string) list \<Rightarrow> Redis" where
  "cache_of tbl =
     \<lparr>Exists = (\<lambda>key. (map_of tbl key \<noteq> None, None)),
      HGet = (\<lambda>key field.
        case map_of tbl key of
          Some v \<Rightarrow> if field = ''internalWaveUserID'' then (v, None)
                    else ([], Some (External ''redigo: nil returned''))
        | None \<Rightarrow> ([], Some (External ''redigo: nil returned'')))\<rparr>"

definition store_of :: "bool \<Rightarrow> VerneMQACL list \<Rightarrow> error option list \<Rightarrow> MongoDB" where
  "store_of uniq acls faults =
     \<lparr>VerneMQACLCollection = acls, GroupConversationCollection = [],
      unique_client_id = uniq, driver_faults = faults, oplog = []\<rparr>"

definition authenticated_as :: "MQTTAuthInfos \<Rightarrow> bool \<Rightarrow> bool \<Rightarrow> Collaborators" where
  "authenticated_as infos wasCached wasTokenUpdated =
     \<lparr>IsTokenValid = (\<lambda>env token. (True, None)),
      CheckAuthentication = (\<lambda>env token. ((infos, wasCached, wasTokenUpdated, None), env)),
      default_publish_acl = [], default_subscribe_acl = [],
      GroupConversationTopicPath = ''conversations/group/'',
      NewGroupConversationID = (\<lambda>name members. ''g1'')\<rparr>"

definition user :: "string \<Rightarrow> MQTTAuthInfos" where
  "user clientID = \<lparr>ClientID = clientID, Username = clientID, Password = ''hash''\<rparr>"

definition acl_of :: "string \<Rightarrow> VerneMQACL" where
  "acl_of clientID =
     \<lparr>client_id = clientID, username = clientID, passhash = ''hash'',
      publish_acl = [], subscribe_acl = []\<rparr>"

definition group_request :: "string list \<Rightarrow> GroupConversationBody Request" where
  "group_request handles =
     \<lparr>header_token = ''tok'',
      decoded_body = Inr \<lparr>body_Name = ''team'', body_Members = handles\<rparr>\<rparr>"

definition cache_abc :: Redis where
  "cache_abc = cache_of [(''mapping:a'', ''u2''), (''mapping:b'', ''u1''), (''mapping:c'', ''u2'')]"

definition plain_request :: "unit Request" where
  "plain_request = \<lparr>header_token = ''tok'', decoded_body = Inr ()\<rparr>"

definition mapping_request :: "string list \<Rightarrow> MappingRequestBody Request" where
  "mapping_request userIDs = \<lparr>header_token = ''tok'', decoded_body = Inr \<lparr>UserIDs = userIDs\<rparr>\<rparr>"

section \<open>The driver and the store\<close>

lemma fault_free_next: "fault_free (Suc k) m \<Longrightarrow> next_fault m = None"
  by (cases "driver_faults m") (auto simp: fault_free_def next_fault_def)

lemma fault_free_round_trip: "fault_free (Suc k) m \<Longrightarrow> fault_free k (round_trip c m)"
  by (cases "driver_faults m") (auto simp: fault_free_def round_trip_def)

lemma fault_free_mono: "fault_free k m \<Longrightarrow> j \<le> k \<Longrightarrow> fault_free j m"
  unfolding fault_free_def list_all_iff
  by (auto dest: in_set_takeD simp: min_def dest!: set_take_subset_set_take[of j k "driver_faults m", THEN subsetD])

lemma update_first_no_match:
  "userID \<notin> set (map client_id ds) \<Longrightarrow> update_first userID upd ds = ds"
  by (induction ds) auto

lemma client_id_apply_update [simp]: "client_id (apply_update upd d) = client_id d"
proof (induction upd arbitrary: d)
  case Nil then show ?case by simp
next
  case (Cons u us) then show ?case by (cases u) simp_all
qed

lemma UpdateOne_ok:
  "next_fault m = None \<Longrightarrow>
   UpdateOne userID upd m =
     (None, m\<lparr>VerneMQACLCollection := update_first userID upd (VerneMQACLCollection m),
              driver_faults := tl (driver_faults m),
              oplog := oplog m @ [UpdateACL userID upd]\<rparr>)"
  by (simp add: UpdateOne_def round_trip_def Let_def)

lemma UpdateOne_fault:
  "next_fault m = Some e \<Longrightarrow>
   UpdateOne userID upd m =
     (Some e, m\<lparr>driver_faults := tl (driver_faults m),
              oplog := oplog m @ [UpdateACL userID upd]\<rparr>)"
  by (simp add: UpdateOne_def round_trip_def Let_def)

lemma filter_client_id_absent:
  "x \<notin> set (map client_id ds) \<Longrightarrow> filter (\<lambda>d. client_id d = x) ds = []"
  by (induction ds) auto

subsection \<open>Seeding the same client twice\<close>

text \<open>
  Claim C1, as the code has it. \<^verbatim>\<open>AddProfileACL\<close> is one unguarded \<^verbatim>\<open>InsertOne\<close> and
  makes no check of its own. For a client without a record, and with no driver fault in
  the two round trips, the first call succeeds; the second call fails, with the
  duplicate-key error of the store, exactly when the collection has a unique index on
  \<^verbatim>\<open>client_id\<close>, and then one record of that client is kept. Without such an index
  the second call succeeds as well and the collection holds both records.
\<close>

theorem AddProfileACL_twice:
  assumes "client_id a \<notin> set (map client_id (VerneMQACLCollection m))"
    and "client_id b = client_id a" and "fault_free 2 m"
  shows "\<exists>m1 m2. AddProfileACL a m = (None, m1)
          \<and> AddProfileACL b m1 =
              (if unique_client_id m then Some (DuplicateKey (client_id a)) else None, m2)
          \<and> filter (\<lambda>d. client_id d = client_id a) (VerneMQACLCollection m2)
              = (if unique_client_id m then [a] else [a, b])"
proof -
  have f1: "next_fault m = None"
    and f2: "next_fault (round_trip (InsertACL a) m) = None"
    using assms(3) by (auto simp: numeral_2_eq_2 dest: fault_free_next fault_free_round_trip)
  have nof: "filter (\<lambda>d. client_id d = client_id a) (VerneMQACLCollection m) = []"
    using assms(1) by (rule filter_client_id_absent)
  show ?thesis using assms(1,2) f1 f2 nof
    by (simp add: AddProfileACL_def InsertOne_acl_def Marshal_def Let_def round_trip_def next_fault_def)
qed

theorem AddProfileACL_twice_witness:
  "\<exists>m1 m2. AddProfileACL (acl_of ''c1'') (store_of True [] []) = (None, m1)
     \<and> AddProfileACL (acl_of ''c1'') m1 = (Some (DuplicateKey ''c1''), m2)
     \<and> filter (\<lambda>d. client_id d = ''c1'') (VerneMQACLCollection m2) = [acl_of ''c1'']"
  using AddProfileACL_twice[of "acl_of ''c1''" "store_of True [] []" "acl_of ''c1''"]
  by (simp add: store_of_def acl_of_def user_def authenticated_as_def cache_of_def fault_free_def)

text \<open>
  Claim C1 as stated fails on a collection without a unique index on \<^verbatim>\<open>client_id\<close>:
  both calls for \<^verbatim>\<open>c1\<close> return \<^verbatim>\<open>nil\<close> and two records of \<^verbatim>\<open>c1\<close> are stored.
\<close>

theorem AddProfileACL_twice_no_conflict:
  "fst (AddProfileACL (acl_of ''c1'') (store_of False [] [])) = None
   \<and> fst (AddProfileACL (acl_of ''c1'') (snd (AddProfileACL (acl_of ''c1'') (store_of False [] [])))) = None
   \<and> map client_id (VerneMQACLCollection
        (snd (AddProfileACL (acl_of ''c1'') (snd (AddProfileACL (acl_of ''c1'') (store_of False [] []))))))
      = [''c1'', ''c1'']"
  by (simp add: store_of_def acl_of_def user_def authenticated_as_def cache_of_def AddProfileACL_def InsertOne_acl_def Marshal_def round_trip_def
      next_fault_def Let_def)

subsection \<open>Updating the hash of an unknown client\<close>

text \<open>
  Claim C7. \<^verbatim>\<open>UpdatePassHash\<close> for a client without a record changes no document of
  either collection, and the only error it can return is the fault of the driver round
  trip itself: it returns \<^verbatim>\<open>nil\<close> whenever the driver does.
\<close>

theorem UpdatePassHash_absent:
  assumes "userID \<notin> set (map client_id (VerneMQACLCollection mongoDB))"
  shows "VerneMQACLCollection (snd (UpdatePassHash userID newPasshash mongoDB)) = VerneMQACLCollection mongoDB
       \<and> GroupConversationCollection (snd (UpdatePassHash userID newPasshash mongoDB)) = GroupConversationCollection mongoDB
       \<and> fst (UpdatePassHash userID newPasshash mongoDB) = next_fault mongoDB"
  using assms
  by (simp add: UpdatePassHash_def UpdateOne_def round_trip_def Let_def update_first_no_match
      split: option.splits)

theorem UpdatePassHash_absent_witness:
  "VerneMQACLCollection (snd (UpdatePassHash ''ghost'' ''new'' (store_of False [acl_of ''u1''] [])))
     = [acl_of ''u1'']
   \<and> fst (UpdatePassHash ''ghost'' ''new'' (store_of False [acl_of ''u1''] [])) = None"
  using UpdatePassHash_absent[of "''ghost''" "store_of False [acl_of ''u1''] []" "''new''"]
  by (simp add: store_of_def acl_of_def user_def authenticated_as_def cache_of_def next_fault_def)

subsection \<open>The fan-out of a group\<close>

lemma grant_members_ok:
  "fault_free (length ms) m \<Longrightarrow>
   grant_members tp gid ms m =
     (None, m\<lparr>VerneMQACLCollection := grant_docs tp gid ms (VerneMQACLCollection m),
              driver_faults := drop (length ms) (driver_faults m),
              oplog := oplog m @ map (\<lambda>u. UpdateACL u (group_update tp gid u)) ms\<rparr>)"
proof (induction ms arbitrary: m)
  case Nil
  then show ?case by simp
next
  case (Cons u us)
  let ?c = "UpdateACL u (group_update tp gid u)"
  from Cons.prems have nf: "next_fault m = None" and ff: "fault_free (length us) (round_trip ?c m)"
    by (auto dest: fault_free_next fault_free_round_trip)
  have ff': "fault_free (length us)
      (m\<lparr>VerneMQACLCollection := update_first u (group_update tp gid u) (VerneMQACLCollection m),
         driver_faults := tl (driver_faults m), oplog := oplog m @ [?c]\<rparr>)"
    using ff by (simp add: fault_free_def round_trip_def)
  show ?case
    by (simp add: UpdateOne_ok[OF nf] Cons.IH[OF ff'] drop_Suc)
qed

lemma grant_members_oplog:
  "\<exists>rest. oplog (snd (grant_members tp gid ms m)) = oplog m @ rest"
proof (induction ms arbitrary: m)
  case Nil
  then show ?case by simp
next
  case (Cons u us)
  show ?case
  proof (cases "next_fault m")
    case None
    let ?m' = "m\<lparr>VerneMQACLCollection := update_first u (group_update tp gid u) (VerneMQACLCollection m),
             driver_faults := tl (driver_faults m),
             oplog := oplog m @ [UpdateACL u (group_update tp gid u)]\<rparr>"
    from Cons.IH[of ?m'] obtain rest where
      "oplog (snd (grant_members tp gid us
          (m\<lparr>VerneMQACLCollection := update_first u (group_update tp gid u) (VerneMQACLCollection m),
             driver_faults := tl (driver_faults m),
             oplog := oplog m @ [UpdateACL u (group_update tp gid u)]\<rparr>)))
       = (oplog m @ [UpdateACL u (group_update tp gid u)]) @ rest"
      by auto
    then show ?thesis by (simp add: UpdateOne_ok[OF None])
  next
    case (Some e)
    then show ?thesis by (simp add: UpdateOne_fault[OF Some])
  qed
qed

lemma find_update_first:
  "find (\<lambda>d. client_id d = u) (update_first u' upd ds) =
     (if u = u' then map_option (apply_update upd) (find (\<lambda>d. client_id d = u) ds)
      else find (\<lambda>d. client_id d = u) ds)"
  by (induction ds) auto

lemma find_grant_docs:
  "distinct ms \<Longrightarrow>
   find (\<lambda>d. client_id d = u) (grant_docs tp gid ms ds) =
     (if u \<in> set ms then map_option (apply_update (group_update tp gid u)) (find (\<lambda>d. client_id d = u) ds)
      else find (\<lambda>d. client_id d = u) ds)"
  by (induction ms arbitrary: ds) (auto simp: find_update_first)

text \<open>
  Claim C5. For the group \<^verbatim>\<open>g1\<close> with the members \<^verbatim>\<open>u1\<close> and \<^verbatim>\<open>u2\<close>, and a topic
  path that is a prefix followed by a slash, \<^verbatim>\<open>UpdateProfilesWithGroupACL\<close> hands
  exactly two updates to the driver when no round trip fails: the one for \<^verbatim>\<open>u1\<close>
  pushes \<^verbatim>\<open>prefix/g1/u1\<close> to its publish ACL and \<^verbatim>\<open>prefix/g1/+\<close> to its subscribe ACL,
  the one for \<^verbatim>\<open>u2\<close> pushes \<^verbatim>\<open>prefix/g1/u2\<close> and \<^verbatim>\<open>prefix/g1/+\<close>; nothing else is
  written and \<^verbatim>\<open>nil\<close> is returned.
\<close>

theorem group_fan_out:
  assumes "fault_free 2 m"
  shows "UpdateProfilesWithGroupACL (prefix @ ''/'')
           \<lparr>GroupConversationID = ''g1'', Name = name, Members = [''u1'', ''u2'']\<rparr> m =
         (None, m\<lparr>VerneMQACLCollection :=
                   update_first ''u2'' [Push_publish_acl (Pattern (prefix @ ''/g1/u2'')),
                                        Push_subscribe_acl (Pattern (prefix @ ''/g1/+''))]
                    (update_first ''u1'' [Push_publish_acl (Pattern (prefix @ ''/g1/u1'')),
                                          Push_subscribe_acl (Pattern (prefix @ ''/g1/+''))]
                      (VerneMQACLCollection m)),
                  driver_faults := drop 2 (driver_faults m),
                  oplog := oplog m @
                    [UpdateACL ''u1'' [Push_publish_acl (Pattern (prefix @ ''/g1/u1'')),
                                       Push_subscribe_acl (Pattern (prefix @ ''/g1/+''))],
                     UpdateACL ''u2'' [Push_publish_acl (Pattern (prefix @ ''/g1/u2'')),
                                       Push_subscribe_acl (Pattern (prefix @ ''/g1/+''))]]\<rparr>)"
proof -
  have ff: "fault_free (length [''u1'', ''u2'']) m" using assms by (simp add: numeral_2_eq_2)
  show ?thesis
    unfolding UpdateProfilesWithGroupACL_def
    by (simp only: GroupConversation.simps grant_members_ok[OF ff])
       (simp add: group_update_def numeral_2_eq_2)
qed

theorem group_fan_out_witness:
  "fault_free 2 (store_of False [acl_of ''u1'', acl_of ''u2''] [])
   \<and> UpdateProfilesWithGroupACL (''conversations/group'' @ ''/'')
       \<lparr>GroupConversationID = ''g1'', Name = ''team'', Members = [''u1'', ''u2'']\<rparr>
       (store_of False [acl_of ''u1'', acl_of ''u2''] []) =
     (None,
      \<lparr>VerneMQACLCollection =
         [(acl_of ''u1'')\<lparr>publish_acl := [Pattern ''conversations/group/g1/u1''],
                          subscribe_acl := [Pattern ''conversations/group/g1/+'']\<rparr>,
          (acl_of ''u2'')\<lparr>publish_acl := [Pattern ''conversations/group/g1/u2''],
                          subscribe_acl := [Pattern ''conversations/group/g1/+'']\<rparr>],
       GroupConversationCollection = [],
       unique_client_id = False,
       driver_faults = [],
       oplog = [UpdateACL ''u1'' [Push_publish_acl (Pattern ''conversations/group/g1/u1''),
                                  Push_subscribe_acl (Pattern ''conversations/group/g1/+'')],
                UpdateACL ''u2'' [Push_publish_acl (Pattern ''conversations/group/g1/u2''),
                                  Push_subscribe_acl (Pattern ''conversations/group/g1/+'')]]\<rparr>)"
proof -
  have h: "fault_free 2 (store_of False [acl_of ''u1'', acl_of ''u2''] [])"
    by (simp add: store_of_def acl_of_def user_def authenticated_as_def cache_of_def fault_free_def)
  show ?thesis
    using h group_fan_out[OF h, of "''conversations/group''" "''team''"]
    by (simp add: store_of_def acl_of_def user_def authenticated_as_def cache_of_def)
qed

subsection \<open>Granting twice\<close>

text \<open>
  Claim C8. The grants append with \<^verbatim>\<open>$push\<close> and are not idempotent. For a client
  with a record, two calls of \<^verbatim>\<open>AuthorizePublishing\<close> with the same topic leave the
  topic twice at the end of its publish ACL; and two calls of
  \<^verbatim>\<open>UpdateProfilesWithGroupACL\<close> for the same group leave, for every member with a
  record, the publish pattern and the subscribe pattern of the group twice.
\<close>

theorem grants_not_idempotent:
  assumes rec: "find (\<lambda>d. client_id d = userID) (VerneMQACLCollection m) = Some d"
    and mem: "userID \<in> set (Members gc)" and dist: "distinct (Members gc)"
    and ff: "fault_free (2 * length (Members gc)) m"
  shows "(\<exists>m1 m2. AuthorizePublishing userID topic m = (None, m1)
            \<and> AuthorizePublishing userID topic m1 = (None, m2)
            \<and> find (\<lambda>d. client_id d = userID) (VerneMQACLCollection m2)
                = Some (d\<lparr>publish_acl := publish_acl d @ [Topic topic, Topic topic]\<rparr>))
       \<and> (\<exists>m1 m2. UpdateProfilesWithGroupACL topicPath gc m = (None, m1)
            \<and> UpdateProfilesWithGroupACL topicPath gc m1 = (None, m2)
            \<and> find (\<lambda>d. client_id d = userID) (VerneMQACLCollection m2)
                = Some (d\<lparr>publish_acl := publish_acl d @
                             [Pattern (topicPath @ GroupConversationID gc @ ''/'' @ userID),
                              Pattern (topicPath @ GroupConversationID gc @ ''/'' @ userID)],
                          subscribe_acl := subscribe_acl d @
                             [Pattern (topicPath @ GroupConversationID gc @ ''/+''),
                              Pattern (topicPath @ GroupConversationID gc @ ''/+'')]\<rparr>))"
proof
  from mem have "2 \<le> 2 * length (Members gc)" by (cases "Members gc") simp_all
  then have "fault_free 2 m" by (rule fault_free_mono[OF ff])
  then have f1: "next_fault m = None"
    and f2: "next_fault (round_trip (UpdateACL userID [Push_publish_acl (Topic topic)]) m) = None"
    by (auto simp: numeral_2_eq_2 dest: fault_free_next fault_free_round_trip)
  from f2 have f2': "next_fault (m\<lparr>VerneMQACLCollection := update_first userID [Push_publish_acl (Topic topic)] (VerneMQACLCollection m),
              driver_faults := tl (driver_faults m),
              oplog := oplog m @ [UpdateACL userID [Push_publish_acl (Topic topic)]]\<rparr>) = None"
    by (simp add: next_fault_def round_trip_def)
  show "\<exists>m1 m2. AuthorizePublishing userID topic m = (None, m1)
            \<and> AuthorizePublishing userID topic m1 = (None, m2)
            \<and> find (\<lambda>d. client_id d = userID) (VerneMQACLCollection m2)
                = Some (d\<lparr>publish_acl := publish_acl d @ [Topic topic, Topic topic]\<rparr>)"
    using rec by (simp add: AuthorizePublishing_def UpdateOne_ok[OF f1] UpdateOne_ok[OF f2'] find_update_first)
next
  let ?n = "length (Members gc)"
  let ?g = "GroupConversationID gc"
  let ?m1 = "m\<lparr>VerneMQACLCollection := grant_docs topicPath ?g (Members gc) (VerneMQACLCollection m),
              driver_faults := drop ?n (driver_faults m),
              oplog := oplog m @ map (\<lambda>u. UpdateACL u (group_update topicPath ?g u)) (Members gc)\<rparr>"
  have a: "fault_free ?n m" using ff by (auto intro: fault_free_mono)
  have "take ?n (drop ?n (driver_faults m)) = drop ?n (take (2 * ?n) (driver_faults m))"
    by (simp add: drop_take)
  then have b: "fault_free ?n ?m1" using ff
    by (auto simp: fault_free_def list_all_iff dest: in_set_dropD)
  let ?m2 = "?m1\<lparr>VerneMQACLCollection := grant_docs topicPath ?g (Members gc) (VerneMQACLCollection ?m1),
              driver_faults := drop ?n (driver_faults ?m1),
              oplog := oplog ?m1 @ map (\<lambda>u. UpdateACL u (group_update topicPath ?g u)) (Members gc)\<rparr>"
  have e1: "UpdateProfilesWithGroupACL topicPath gc m = (None, ?m1)"
    unfolding UpdateProfilesWithGroupACL_def by (rule grant_members_ok[OF a])
  have e2: "UpdateProfilesWithGroupACL topicPath gc ?m1 = (None, ?m2)"
    unfolding UpdateProfilesWithGroupACL_def by (rule grant_members_ok[OF b])
  have e3: "find (\<lambda>d. client_id d = userID) (VerneMQACLCollection ?m2)
                = Some (d\<lparr>publish_acl := publish_acl d @
                             [Pattern (topicPath @ ?g @ ''/'' @ userID),
                              Pattern (topicPath @ ?g @ ''/'' @ userID)],
                          subscribe_acl := subscribe_acl d @
                             [Pattern (topicPath @ ?g @ ''/+''),
                              Pattern (topicPath @ ?g @ ''/+'')]\<rparr>)"
    using rec mem dist by (simp add: find_grant_docs group_update_def)
  from e1 e2 e3
  show "\<exists>m1 m2. UpdateProfilesWithGroupACL topicPath gc m = (None, m1)
            \<and> UpdateProfilesWithGroupACL topicPath gc m1 = (None, m2)
            \<and> find (\<lambda>d. client_id d = userID) (VerneMQACLCollection m2)
                = Some (d\<lparr>publish_acl := publish_acl d @
                             [Pattern (topicPath @ ?g @ ''/'' @ userID),
                              Pattern (topicPath @ ?g @ ''/'' @ userID)],
                          subscribe_acl := subscribe_acl d @
                             [Pattern (topicPath @ ?g @ ''/+''),
                              Pattern (topicPath @ ?g @ ''/+'')]\<rparr>)"
    by blast
qed

theorem grants_not_idempotent_witness:
  "(\<exists>m1 m2. AuthorizePublishing ''u1'' ''news'' (store_of False [acl_of ''u1''] []) = (None, m1)
      \<and> AuthorizePublishing ''u1'' ''news'' m1 = (None, m2)
      \<and> map publish_acl (VerneMQACLCollection m2) = [[Topic ''news'', Topic ''news'']])
   \<and> (\<exists>m1 m2. UpdateProfilesWithGroupACL ''conversations/group/''
                 \<lparr>GroupConversationID = ''g1'', Name = ''team'', Members = [''u1'']\<rparr>
                 (store_of False [acl_of ''u1''] []) = (None, m1)
      \<and> UpdateProfilesWithGroupACL ''conversations/group/''
                 \<lparr>GroupConversationID = ''g1'', Name = ''team'', Members = [''u1'']\<rparr> m1 = (None, m2)
      \<and> find (\<lambda>d. client_id d = ''u1'') (VerneMQACLCollection m2)
          = Some ((acl_of ''u1'')\<lparr>publish_acl := [Pattern ''conversations/group/g1/u1'',
                                                   Pattern ''conversations/group/g1/u1''],
                                   subscribe_acl := [Pattern ''conversations/group/g1/+'',
                                                     Pattern ''conversations/group/g1/+'']\<rparr>))"
proof -
  have h1: "find (\<lambda>d. client_id d = ''u1'') (VerneMQACLCollection (store_of False [acl_of ''u1''] []))
              = Some (acl_of ''u1'')"
    by (simp add: store_of_def acl_of_def user_def authenticated_as_def cache_of_def)
  have h2: "fault_free (2 * length (Members \<lparr>GroupConversationID = ''g1'', Name = ''team'', Members = [''u1'']\<rparr>))
              (store_of False [acl_of ''u1''] [])"
    by (simp add: store_of_def acl_of_def user_def authenticated_as_def cache_of_def fault_free_def)
  from grants_not_idempotent[OF h1 _ _ h2, of "''news''" "''conversations/group/''"]
  have g: "(\<exists>m1 m2. AuthorizePublishing ''u1'' ''news'' (store_of False [acl_of ''u1''] []) = (None, m1)
      \<and> AuthorizePublishing ''u1'' ''news'' m1 = (None, m2)
      \<and> find (\<lambda>d. client_id d = ''u1'') (VerneMQACLCollection m2)
          = Some ((acl_of ''u1'')\<lparr>publish_acl := [Topic ''news'', Topic ''news'']\<rparr>))
   \<and> (\<exists>m1 m2. UpdateProfilesWithGroupACL ''conversations/group/''
                 \<lparr>GroupConversationID = ''g1'', Name = ''team'', Members = [''u1'']\<rparr>
                 (store_of False [acl_of ''u1''] []) = (None, m1)
      \<and> UpdateProfilesWithGroupACL ''conversations/group/''
                 \<lparr>GroupConversationID = ''g1'', Name = ''team'', Members = [''u1'']\<rparr> m1 = (None, m2)
      \<and> find (\<lambda>d. client_id d = ''u1'') (VerneMQACLCollection m2)
          = Some ((acl_of ''u1'')\<lparr>publish_acl := [Pattern ''conversations/group/g1/u1'',
                                                   Pattern ''conversations/group/g1/u1''],
                                   subscribe_acl := [Pattern ''conversations/group/g1/+'',
                                                     Pattern ''conversations/group/g1/+'']\<rparr>))"
    by (simp add: acl_of_def)
  have ev: "\<exists>m1 m2. AuthorizePublishing ''u1'' ''news'' (store_of False [acl_of ''u1''] []) = (None, m1)
      \<and> AuthorizePublishing ''u1'' ''news'' m1 = (None, m2)
      \<and> map publish_acl (VerneMQACLCollection m2) = [[Topic ''news'', Topic ''news'']]"
    by (simp add: store_of_def acl_of_def user_def authenticated_as_def cache_of_def AuthorizePublishing_def UpdateOne_def round_trip_def next_fault_def Let_def)
  from g ev show ?thesis by blast
qed

section \<open>The handlers\<close>

subsection \<open>AddVerneMQACL\<close>


lemma AddProfileACL_docs:
  "VerneMQACLCollection (snd (AddProfileACL a m)) =
     VerneMQACLCollection m @ (if fst (AddProfileACL a m) = None then [a] else [])"
  by (simp add: AddProfileACL_def InsertOne_acl_def Marshal_def round_trip_def Let_def
      split: option.splits)

lemma AddVerneMQACL_run:
  assumes tv: "IsTokenValid c env (header_token r) = (True, None)"
    and au: "CheckAuthentication c env (header_token r) = ((infos, wasCached, wasTokenUpdated, err), env1)"
  shows "AddVerneMQACL c env r =
     (if err \<noteq> None then ((Some (ErrCode CodeInvalidToken), None), env1)
      else if wasTokenUpdated then ((Some (ErrCode CodeUpdated), None), env1)
      else if wasCached then ((Some (ErrCode CodeAlreadyExists), None), env1)
      else
        (let res = AddProfileACL (NewVerneMQACL c (ClientID infos) (Username infos) (Password infos))
                     (MongoDB env1)
         in ((if fst res = None
              then (None, Some (Response (ClientID_payload (ClientID infos)) ''/helloworld'' CodeSuccess))
              else (Some (ErrCode CodeInvalidToken), None)),
             env1\<lparr>MongoDB := snd res\<rparr>)))"
  unfolding AddVerneMQACL_def
  by (cases err; cases "AddProfileACL (NewVerneMQACL c (ClientID infos) (Username infos) (Password infos)) (MongoDB env1)")
     (auto simp: tv au Let_def split: option.splits)




text \<open>
  Claim C6, as the code has it. When the outcome is fresh and the store rejects the insert,
  for a duplicate as for any other reason, \<^verbatim>\<open>AddVerneMQACL\<close> returns the error
  \<^verbatim>\<open>CodeInvalidToken\<close> and writes no response of its own; the records of the
  collection stay as they were.
\<close>

theorem AddVerneMQACL_rejected_insert:
  assumes tv: "IsTokenValid c env (header_token r) = (True, None)"
    and au: "CheckAuthentication c env (header_token r) = ((infos, False, False, None), env1)"
    and rej: "fst (AddProfileACL (NewVerneMQACL c (ClientID infos) (Username infos) (Password infos))
                     (MongoDB env1)) = Some e"
  shows "fst (AddVerneMQACL c env r) = (Some (ErrCode CodeInvalidToken), None)
       \<and> VerneMQACLCollection (MongoDB (snd (AddVerneMQACL c env r)))
           = VerneMQACLCollection (MongoDB env1)"
  by (simp add: AddVerneMQACL_run[OF tv au] Let_def rej AddProfileACL_docs)

theorem AddVerneMQACL_rejected_insert_witness:
  "fst (AddProfileACL (acl_of ''c2'') (store_of True [acl_of ''c2''] [])) = Some (DuplicateKey ''c2'')
   \<and> fst (AddVerneMQACL (authenticated_as (user ''c2'') False False)
       \<lparr>Redis = cache_abc, MongoDB = store_of True [acl_of ''c2''] []\<rparr> plain_request)
     = (Some (ErrCode CodeInvalidToken), None)
   \<and> VerneMQACLCollection (MongoDB (snd (AddVerneMQACL (authenticated_as (user ''c2'') False False)
       \<lparr>Redis = cache_abc, MongoDB = store_of True [acl_of ''c2''] []\<rparr> plain_request)))
     = [acl_of ''c2'']"
proof -
  let ?c = "authenticated_as (user ''c2'') False False"
  let ?env = "\<lparr>Redis = cache_abc, MongoDB = store_of True [acl_of ''c2''] []\<rparr>"
  have tv: "IsTokenValid ?c ?env (header_token plain_request) = (True, None)"
    by (simp add: authenticated_as_def)
  have au: "CheckAuthentication ?c ?env (header_token plain_request) = ((user ''c2'', False, False, None), ?env)"
    by (simp add: authenticated_as_def)
  have rej0: "fst (AddProfileACL (acl_of ''c2'') (store_of True [acl_of ''c2''] [])) = Some (DuplicateKey ''c2'')"
    by (simp add: AddProfileACL_def InsertOne_acl_def Marshal_def next_fault_def store_of_def
        acl_of_def Let_def)
  have acl: "NewVerneMQACL ?c (ClientID (user ''c2'')) (Username (user ''c2'')) (Password (user ''c2''))
      = acl_of ''c2''"
    by (simp add: NewVerneMQACL_def authenticated_as_def user_def acl_of_def)
  have rej: "fst (AddProfileACL (NewVerneMQACL ?c (ClientID (user ''c2'')) (Username (user ''c2''))
      (Password (user ''c2''))) (MongoDB ?env)) = Some (DuplicateKey ''c2'')"
    using rej0 by (simp add: acl)
  show ?thesis
    using rej0 AddVerneMQACL_rejected_insert[OF tv au rej]
    by (simp add: store_of_def)
qed

text \<open>
  Claim C6 as stated fails: with a unique index and a record of \<^verbatim>\<open>c1\<close> in place, the
  insert for \<^verbatim>\<open>c1\<close> is rejected as a duplicate and the handler returns the
  invalid-token error.
\<close>

theorem AddVerneMQACL_conflict_surfaces:
  "fst (AddProfileACL (acl_of ''c1'') (store_of True [acl_of ''c1''] [])) = Some (DuplicateKey ''c1'')
   \<and> fst (AddVerneMQACL (authenticated_as (user ''c1'') False False)
       \<lparr>Redis = cache_abc, MongoDB = store_of True [acl_of ''c1''] []\<rparr> plain_request)
     = (Some (ErrCode CodeInvalidToken), None)"
  by (simp add: AddVerneMQACL_def AddProfileACL_def InsertOne_acl_def NewVerneMQACL_def
        plain_request_def authenticated_as_def user_def Marshal_def next_fault_def round_trip_def store_of_def acl_of_def Let_def)

subsection \<open>AddGroupConversation\<close>

lemma members_loop_filter:
  "n \<le> i \<Longrightarrow> i \<le> length arr \<Longrightarrow> list_all (lookup_ok redis) (drop i arr) \<Longrightarrow>
   \<exists>arr' k. members_loop redis clientID arr n i = Inr (arr', k) \<and>
     take k arr' = take n arr @ filter (\<lambda>v. v \<noteq> clientID) (resolved_ids redis (drop i arr))"
proof (induction redis clientID arr n i rule: members_loop.induct)
  case (1 redis clientID arr n i)
  show ?case
  proof (cases "i < length arr")
    case False
    with "1.prems" show ?thesis
      by (subst members_loop.simps) (simp add: resolved_ids_def)
  next
    case True
    let ?member = "arr ! i"
    let ?ex = "Exists redis (''mapping:'' @ ?member)"
    let ?hg = "HGet redis (''mapping:'' @ ?member) ''internalWaveUserID''"
    from True have dr: "drop i arr = ?member # drop (Suc i) arr"
      by (simp add: Cons_nth_drop_Suc)
    with "1.prems"(3) have ok: "lookup_ok redis ?member"
      and rest: "list_all (lookup_ok redis) (drop (Suc i) arr)" by simp_all
    from ok have exN: "snd ?ex = None" by (simp add: lookup_ok_def)
    then obtain doesExist where ex: "?ex = (doesExist, None)" by (cases ?ex) auto
    show ?thesis
    proof (cases doesExist)
      case False
      from "1.IH"(3)[OF True ex[symmetric] refl] False "1.prems" True rest
      obtain arr' k where "members_loop redis clientID arr n (Suc i) = Inr (arr', k)"
        and "take k arr' = take n arr @ filter (\<lambda>v. v \<noteq> clientID) (resolved_ids redis (drop (Suc i) arr))"
        by auto
      then show ?thesis using True ex False dr
        by (subst members_loop.simps) (simp add: resolved_ids_def)
    next
      case dE: True
      from ok ex dE have "snd ?hg = None" by (simp add: lookup_ok_def)
      then obtain v where hg: "?hg = (v, None)" by (cases ?hg) auto
      show ?thesis
      proof (cases "v = clientID")
        case True
        note veq = this
        from "1.IH"(2)[OF \<open>i < length arr\<close> ex[symmetric] refl dE hg[symmetric] refl] veq "1.prems" \<open>i < length arr\<close> rest
        obtain arr' k where "members_loop redis clientID arr n (Suc i) = Inr (arr', k)"
          and "take k arr' = take n arr @ filter (\<lambda>v. v \<noteq> clientID) (resolved_ids redis (drop (Suc i) arr))"
          by auto
        then show ?thesis using \<open>i < length arr\<close> ex dE hg veq dr
          by (subst members_loop.simps) (simp add: resolved_ids_def)
      next
        case False
        note vne = this
        have r': "list_all (lookup_ok redis) (drop (Suc i) (arr[n := v]))"
          using rest "1.prems"(1) by (simp add: drop_update_cancel)
        from "1.IH"(1)[OF \<open>i < length arr\<close> ex[symmetric] refl dE hg[symmetric] refl] vne "1.prems" \<open>i < length arr\<close> r'
        obtain arr' k where a: "members_loop redis clientID (arr[n := v]) (Suc n) (Suc i) = Inr (arr', k)"
          and b: "take k arr' = take (Suc n) (arr[n := v]) @ filter (\<lambda>v. v \<noteq> clientID) (resolved_ids redis (drop (Suc i) (arr[n := v])))"
          by auto
        have n_lt: "n < length arr" using "1.prems"(1) \<open>i < length arr\<close> by simp
        have c: "take (Suc n) (arr[n := v]) = take n arr @ [v]"
          using n_lt by (simp add: take_Suc_conv_app_nth)
        have d: "drop (Suc i) (arr[n := v]) = drop (Suc i) arr"
          using "1.prems"(1) by (simp add: drop_update_cancel)
        show ?thesis using a b c d \<open>i < length arr\<close> ex dE hg vne dr
          by (subst members_loop.simps) (simp add: resolved_ids_def)
      qed
    qed
  qed
qed

lemma AddGroupConversation_oplog:
  "oplog (snd (AddGroupConversation gc m)) = oplog m @ [InsertGroup gc]"
  by (simp add: AddGroupConversation_def InsertOne_group_def Marshal_def round_trip_def Let_def
      split: option.splits)

lemma AddGroupConversation_fault:
  "next_fault m = Some e \<Longrightarrow>
   AddGroupConversation gc m =
     (Some e, m\<lparr>driver_faults := tl (driver_faults m), oplog := oplog m @ [InsertGroup gc]\<rparr>)"
  by (simp add: AddGroupConversation_def InsertOne_group_def Marshal_def round_trip_def Let_def)

lemma AddGroupConversation_handler_run:
  assumes tv: "IsTokenValid c env (header_token r) = (True, None)"
    and au: "CheckAuthentication c env (header_token r) = ((infos, wasCached, wasTokenUpdated, None), env1)"
    and bd: "decoded_body r = Inr reqBody"
    and lk: "list_all (lookup_ok (Redis env1)) (body_Members reqBody)"
  shows "AddGroupConversation_handler c env r =
     (let groupConv = NewGroupConversation c (body_Name reqBody)
                        (filter (\<lambda>v. v \<noteq> ClientID infos)
                           (resolved_ids (Redis env1) (body_Members reqBody)) @ [ClientID infos]);
          m1 = snd (AddGroupConversation groupConv (MongoDB env1));
          res = UpdateProfilesWithGroupACL (GroupConversationTopicPath c) groupConv m1
      in (case fst res of
            Some err \<Rightarrow> ((Some (ErrCode CodeInvalidToken), None), env1\<lparr>MongoDB := snd res\<rparr>)
          | None \<Rightarrow> ((None, Some (Response Nil_payload ''/helloworld'' CodeSuccess)),
                      env1\<lparr>MongoDB := snd res\<rparr>)))"
proof -
  from members_loop_filter[of 0 0 "body_Members reqBody" "Redis env1" "ClientID infos"] lk
  obtain arr' k where ml: "members_loop (Redis env1) (ClientID infos) (body_Members reqBody) 0 0 = Inr (arr', k)"
    and tk: "take k arr' = filter (\<lambda>v. v \<noteq> ClientID infos) (resolved_ids (Redis env1) (body_Members reqBody))"
    by auto
  show ?thesis
    unfolding AddGroupConversation_handler_def
    by (simp add: tv au bd ml tk Let_def case_prod_beta split: option.splits)
qed

lemma cache_abc_lookups [simp]:
  "Exists cache_abc ''mapping:a'' = (True, None)"
  "Exists cache_abc ''mapping:b'' = (True, None)"
  "Exists cache_abc ''mapping:c'' = (True, None)"
  "Exists cache_abc ''mapping:ghost'' = (False, None)"
  "HGet cache_abc ''mapping:a'' ''internalWaveUserID'' = (''u2'', None)"
  "HGet cache_abc ''mapping:b'' ''internalWaveUserID'' = (''u1'', None)"
  "HGet cache_abc ''mapping:c'' ''internalWaveUserID'' = (''u2'', None)"
  "HGet cache_abc ''mapping:ghost'' ''internalWaveUserID'' = ([], Some (External ''redigo: nil returned''))"
  by (simp_all add: cache_abc_def cache_of_def)

lemma lookup_ok_abc [simp]:
  "lookup_ok cache_abc ''a''" "lookup_ok cache_abc ''b''" "lookup_ok cache_abc ''c''"
  "lookup_ok cache_abc ''ghost''"
  by (simp_all add: lookup_ok_def)

lemma group_fixture_run:
  assumes "list_all (lookup_ok cache_abc) handles"
  shows "AddGroupConversation_handler (authenticated_as (user ''u1'') False False)
           \<lparr>Redis = cache_abc, MongoDB = store_of False [acl_of ''u1'', acl_of ''u2''] faults\<rparr>
           (group_request handles) =
     (let groupConv = \<lparr>GroupConversationID = ''g1'', Name = ''team'',
                       Members = filter (\<lambda>v. v \<noteq> ''u1'') (resolved_ids cache_abc handles) @ [''u1'']\<rparr>;
          m1 = snd (AddGroupConversation groupConv (store_of False [acl_of ''u1'', acl_of ''u2''] faults));
          res = UpdateProfilesWithGroupACL ''conversations/group/'' groupConv m1
      in (case fst res of
            Some err \<Rightarrow> ((Some (ErrCode CodeInvalidToken), None),
                \<lparr>Redis = cache_abc, MongoDB = snd res\<rparr>)
          | None \<Rightarrow> ((None, Some (Response Nil_payload ''/helloworld'' CodeSuccess)),
                \<lparr>Redis = cache_abc, MongoDB = snd res\<rparr>)))"
proof -
  let ?c = "authenticated_as (user ''u1'') False False"
  let ?env = "\<lparr>Redis = cache_abc, MongoDB = store_of False [acl_of ''u1'', acl_of ''u2''] faults\<rparr>"
  let ?r = "group_request handles"
  have tv: "IsTokenValid ?c ?env (header_token ?r) = (True, None)"
    by (simp add: authenticated_as_def)
  have au: "CheckAuthentication ?c ?env (header_token ?r) = ((user ''u1'', False, False, None), ?env)"
    by (simp add: authenticated_as_def)
  have bd: "decoded_body ?r = Inr \<lparr>body_Name = ''team'', body_Members = handles\<rparr>"
    by (simp add: group_request_def)
  have lk: "list_all (lookup_ok (Redis ?env)) (body_Members \<lparr>body_Name = ''team'', body_Members = handles\<rparr>)"
    using assms by simp
  show ?thesis
    unfolding AddGroupConversation_handler_run[OF tv au bd lk]
    by (simp add: Let_def NewGroupConversation_def authenticated_as_def user_def
        split: option.splits)
qed

text \<open>
  Claim C3, as the code has it. When the cache answers without error, the members of the
  group that the handler builds are the resolved ids other than the requester's, one per
  handle that the cache knows and in the order of the request, followed by the
  requester's id. The requester's id occurs exactly once; every other id occurs as often
  as handles resolve to it.
\<close>

theorem group_members_requester_once:
  assumes tv: "IsTokenValid c env (header_token r) = (True, None)"
    and au: "CheckAuthentication c env (header_token r) = ((infos, wasCached, wasTokenUpdated, None), env1)"
    and bd: "decoded_body r = Inr reqBody"
    and lk: "list_all (lookup_ok (Redis env1)) (body_Members reqBody)"
  shows "\<exists>gc rest.
           oplog (MongoDB (snd (AddGroupConversation_handler c env r)))
             = oplog (MongoDB env1) @ InsertGroup gc # rest
         \<and> Members gc = filter (\<lambda>v. v \<noteq> ClientID infos)
                           (resolved_ids (Redis env1) (body_Members reqBody)) @ [ClientID infos]
         \<and> count_list (Members gc) (ClientID infos) = 1
         \<and> (\<forall>v. v \<noteq> ClientID infos \<longrightarrow>
               count_list (Members gc) v
                 = count_list (resolved_ids (Redis env1) (body_Members reqBody)) v)"
proof -
  let ?ms = "filter (\<lambda>v. v \<noteq> ClientID infos)
               (resolved_ids (Redis env1) (body_Members reqBody)) @ [ClientID infos]"
  let ?gc = "NewGroupConversation c (body_Name reqBody) ?ms"
  let ?m1 = "snd (AddGroupConversation ?gc (MongoDB env1))"
  obtain rest where
    "oplog (snd (UpdateProfilesWithGroupACL (GroupConversationTopicPath c) ?gc ?m1)) = oplog ?m1 @ rest"
    unfolding UpdateProfilesWithGroupACL_def using grant_members_oplog by blast
  then have op: "oplog (MongoDB (snd (AddGroupConversation_handler c env r)))
             = oplog (MongoDB env1) @ InsertGroup ?gc # rest"
    by (simp add: AddGroupConversation_handler_run[OF tv au bd lk] Let_def AddGroupConversation_oplog
        split: option.splits)
  have ms: "Members ?gc = ?ms" by (simp add: NewGroupConversation_def)
  have c1: "count_list ?ms (ClientID infos) = 1"
    by (simp add: count_list_0_iff)
  have c2: "\<forall>v. v \<noteq> ClientID infos \<longrightarrow>
      count_list ?ms v = count_list (resolved_ids (Redis env1) (body_Members reqBody)) v"
  proof (intro allI impI)
    fix v assume "v \<noteq> ClientID infos"
    then have "filter ((=) v) (filter (\<lambda>v. v \<noteq> ClientID infos) (resolved_ids (Redis env1) (body_Members reqBody)))
       = filter ((=) v) (resolved_ids (Redis env1) (body_Members reqBody))"
      by (auto intro: filter_cong)
    then show "count_list ?ms v = count_list (resolved_ids (Redis env1) (body_Members reqBody)) v"
      using \<open>v \<noteq> ClientID infos\<close> by (simp add: count_list_eq_length_filter)
  qed
  from op ms c1 c2 show ?thesis by (intro exI[of _ ?gc] exI[of _ rest]) simp
qed

theorem group_members_requester_once_witness:
  "\<exists>gc rest.
     oplog (MongoDB (snd (AddGroupConversation_handler (authenticated_as (user ''u1'') False False)
          \<lparr>Redis = cache_abc, MongoDB = store_of False [acl_of ''u1'', acl_of ''u2''] []\<rparr>
          (group_request [''a'', ''c''])))) = InsertGroup gc # rest
     \<and> Members gc = [''u2'', ''u2'', ''u1'']
     \<and> count_list (Members gc) ''u1'' = 1
     \<and> count_list (Members gc) ''u2'' = 2"
proof -
  let ?c = "authenticated_as (user ''u1'') False False"
  let ?env = "\<lparr>Redis = cache_abc, MongoDB = store_of False [acl_of ''u1'', acl_of ''u2''] []\<rparr>"
  let ?r = "group_request [''a'', ''c'']"
  let ?b = "\<lparr>body_Name = ''team'', body_Members = [''a'', ''c'']\<rparr>"
  have tv: "IsTokenValid ?c ?env (header_token ?r) = (True, None)"
    by (simp add: authenticated_as_def)
  have au: "CheckAuthentication ?c ?env (header_token ?r) = ((user ''u1'', False, False, None), ?env)"
    by (simp add: authenticated_as_def)
  have bd: "decoded_body ?r = Inr ?b"
    by (simp add: group_request_def)
  have lk: "list_all (lookup_ok (Redis ?env)) (body_Members ?b)"
    by simp
  from group_members_requester_once[OF tv au bd lk]
  obtain gc rest where
    o: "oplog (MongoDB (snd (AddGroupConversation_handler ?c ?env ?r))) = oplog (MongoDB ?env) @ InsertGroup gc # rest"
    and m: "Members gc = filter (\<lambda>v. v \<noteq> ClientID (user ''u1'')) (resolved_ids (Redis ?env) (body_Members ?b)) @ [ClientID (user ''u1'')]"
    and c1: "count_list (Members gc) (ClientID (user ''u1'')) = 1"
    and c2: "\<forall>v. v \<noteq> ClientID (user ''u1'') \<longrightarrow>
               count_list (Members gc) v = count_list (resolved_ids (Redis ?env) (body_Members ?b)) v"
    by blast
  from o have o': "oplog (MongoDB (snd (AddGroupConversation_handler ?c ?env ?r))) = InsertGroup gc # rest"
    by (simp add: store_of_def)
  from m have m': "Members gc = [''u2'', ''u2'', ''u1'']"
    by (simp add: user_def resolved_ids_def)
  from c1 have c1': "count_list (Members gc) ''u1'' = 1" by (simp add: user_def)
  from c2 have "count_list (Members gc) ''u2'' = count_list (resolved_ids (Redis ?env) (body_Members ?b)) ''u2''"
    by (simp add: user_def)
  then have c2': "count_list (Members gc) ''u2'' = 2" by (simp add: resolved_ids_def)
  from o' m' c1' c2' show ?thesis by blast
qed

text \<open>
  Claim C3 as stated fails: the handles \<^verbatim>\<open>a\<close> and \<^verbatim>\<open>c\<close> both resolve to \<^verbatim>\<open>u2\<close>, and
  the persisted member list holds \<^verbatim>\<open>u2\<close> twice.
\<close>

theorem group_members_duplicate:
  "map Members (GroupConversationCollection (MongoDB (snd
        (AddGroupConversation_handler (authenticated_as (user ''u1'') False False)
          \<lparr>Redis = cache_abc, MongoDB = store_of False [acl_of ''u1'', acl_of ''u2''] []\<rparr>
          (group_request [''a'', ''c''])))))
     = [[''u2'', ''u2'', ''u1'']]
   \<and> \<not> distinct [''u2'', ''u2'', ''u1'']"
proof -
  have lk: "list_all (lookup_ok cache_abc) [''a'', ''c'']" by simp
  show ?thesis
    unfolding group_fixture_run[OF lk]
    by (simp add: resolved_ids_def AddGroupConversation_def InsertOne_group_def Marshal_def round_trip_def
        next_fault_def UpdateProfilesWithGroupACL_def UpdateOne_def group_update_def Let_def
        store_of_def acl_of_def)
qed

text \<open>
  Claim C4. Requester \<^verbatim>\<open>u1\<close>, handles \<^verbatim>\<open>a\<close>, \<^verbatim>\<open>b\<close>, \<^verbatim>\<open>ghost\<close>, where \<^verbatim>\<open>a\<close> maps to
  \<^verbatim>\<open>u2\<close>, \<^verbatim>\<open>b\<close> maps to \<^verbatim>\<open>u1\<close> and \<^verbatim>\<open>ghost\<close> is unknown to the cache: the handler
  succeeds and the group it persists has the members \<^verbatim>\<open>u2\<close> and \<^verbatim>\<open>u1\<close>, each once.
\<close>

theorem group_creation_scenario:
  "fst (AddGroupConversation_handler (authenticated_as (user ''u1'') False False)
          \<lparr>Redis = cache_abc, MongoDB = store_of False [acl_of ''u1'', acl_of ''u2''] []\<rparr>
          (group_request [''a'', ''b'', ''ghost'']))
     = (None, Some (Response Nil_payload ''/helloworld'' CodeSuccess))
   \<and> GroupConversationCollection (MongoDB (snd
        (AddGroupConversation_handler (authenticated_as (user ''u1'') False False)
          \<lparr>Redis = cache_abc, MongoDB = store_of False [acl_of ''u1'', acl_of ''u2''] []\<rparr>
          (group_request [''a'', ''b'', ''ghost'']))))
     = [\<lparr>GroupConversationID = ''g1'', Name = ''team'', Members = [''u2'', ''u1'']\<rparr>]
   \<and> set (Members (last (GroupConversationCollection (MongoDB (snd
        (AddGroupConversation_handler (authenticated_as (user ''u1'') False False)
          \<lparr>Redis = cache_abc, MongoDB = store_of False [acl_of ''u1'', acl_of ''u2''] []\<rparr>
          (group_request [''a'', ''b'', ''ghost''])))))))
     = {''u1'', ''u2''}"
proof -
  have lk: "list_all (lookup_ok cache_abc) [''a'', ''b'', ''ghost'']" by simp
  show ?thesis
    unfolding group_fixture_run[OF lk]
    by (simp add: resolved_ids_def AddGroupConversation_def InsertOne_group_def Marshal_def round_trip_def
        next_fault_def UpdateProfilesWithGroupACL_def UpdateOne_def group_update_def Let_def
        store_of_def acl_of_def) auto
qed

text \<open>
  Claim C9. When the insert of the group fails in the driver and the grants go through,
  the handler still hands one grant per member to the store, applies them, and returns
  \<^verbatim>\<open>nil\<close> with the success response, although no group conversation was stored: the
  error of \<^verbatim>\<open>AddGroupConversation\<close> is overwritten by the result of
  \<^verbatim>\<open>UpdateProfilesWithGroupACL\<close>.
\<close>

theorem AddGroupConversation_persist_error_discarded:
  assumes tv: "IsTokenValid c env (header_token r) = (True, None)"
    and au: "CheckAuthentication c env (header_token r) = ((infos, wasCached, wasTokenUpdated, None), env1)"
    and bd: "decoded_body r = Inr reqBody"
    and lk: "list_all (lookup_ok (Redis env1)) (body_Members reqBody)"
    and ins: "driver_faults (MongoDB env1) = Some e # faults"
    and ff: "list_all (\<lambda>f. f = None) (take (Suc (length (body_Members reqBody))) faults)"
  shows "let members = filter (\<lambda>v. v \<noteq> ClientID infos)
                         (resolved_ids (Redis env1) (body_Members reqBody)) @ [ClientID infos];
             groupConv = NewGroupConversation c (body_Name reqBody) members;
             res = AddGroupConversation_handler c env r
         in fst (AddGroupConversation groupConv (MongoDB env1)) = Some e
          \<and> fst res = (None, Some (Response Nil_payload ''/helloworld'' CodeSuccess))
          \<and> GroupConversationCollection (MongoDB (snd res)) = GroupConversationCollection (MongoDB env1)
          \<and> oplog (MongoDB (snd res)) =
              oplog (MongoDB env1) @ InsertGroup groupConv #
                map (\<lambda>u. UpdateACL u (group_update (GroupConversationTopicPath c)
                                        (GroupConversationID groupConv) u)) members
          \<and> VerneMQACLCollection (MongoDB (snd res)) =
              grant_docs (GroupConversationTopicPath c) (GroupConversationID groupConv) members
                (VerneMQACLCollection (MongoDB env1))"
proof -
  let ?ms = "filter (\<lambda>v. v \<noteq> ClientID infos)
               (resolved_ids (Redis env1) (body_Members reqBody)) @ [ClientID infos]"
  let ?gc = "NewGroupConversation c (body_Name reqBody) ?ms"
  let ?m = "MongoDB env1"
  let ?m1 = "?m\<lparr>driver_faults := tl (driver_faults ?m), oplog := oplog ?m @ [InsertGroup ?gc]\<rparr>"
  have nf: "next_fault ?m = Some e" using ins by (simp add: next_fault_def)
  have a1: "AddGroupConversation ?gc ?m = (Some e, ?m1)" by (rule AddGroupConversation_fault[OF nf])
  have len: "length ?ms \<le> Suc (length (body_Members reqBody))"
    by (simp add: resolved_ids_def le_trans[OF length_filter_le length_filter_le[THEN le_trans]] )
  have "fault_free (Suc (length (body_Members reqBody))) ?m1"
    using ff ins by (simp add: fault_free_def)
  then have ff1: "fault_free (length ?ms) ?m1" using len by (rule fault_free_mono)
  have ms: "Members ?gc = ?ms" by (simp add: NewGroupConversation_def)
  have a2: "UpdateProfilesWithGroupACL (GroupConversationTopicPath c) ?gc ?m1 =
     (None, ?m1\<lparr>VerneMQACLCollection :=
                   grant_docs (GroupConversationTopicPath c) (GroupConversationID ?gc) ?ms (VerneMQACLCollection ?m1),
                 driver_faults := drop (length ?ms) (driver_faults ?m1),
                 oplog := oplog ?m1 @ map (\<lambda>u. UpdateACL u (group_update (GroupConversationTopicPath c)
                                        (GroupConversationID ?gc) u)) ?ms\<rparr>)"
    unfolding UpdateProfilesWithGroupACL_def ms by (rule grant_members_ok[OF ff1])
  show ?thesis
    unfolding Let_def AddGroupConversation_handler_run[OF tv au bd lk, unfolded Let_def] a1 snd_conv a2 fst_conv
    by simp
qed

theorem AddGroupConversation_persist_error_discarded_witness:
  "fst (AddGroupConversation \<lparr>GroupConversationID = ''g1'', Name = ''team'', Members = [''u2'', ''u1'']\<rparr>
          (store_of False [acl_of ''u1'', acl_of ''u2''] [Some (External ''insert failed'')]))
     = Some (External ''insert failed'')
   \<and> fst (AddGroupConversation_handler (authenticated_as (user ''u1'') False False)
          \<lparr>Redis = cache_abc,
            MongoDB = store_of False [acl_of ''u1'', acl_of ''u2''] [Some (External ''insert failed'')]\<rparr>
          (group_request [''a'']))
     = (None, Some (Response Nil_payload ''/helloworld'' CodeSuccess))
   \<and> GroupConversationCollection (MongoDB (snd
        (AddGroupConversation_handler (authenticated_as (user ''u1'') False False)
          \<lparr>Redis = cache_abc,
            MongoDB = store_of False [acl_of ''u1'', acl_of ''u2''] [Some (External ''insert failed'')]\<rparr>
          (group_request [''a''])))) = []
   \<and> oplog (MongoDB (snd
        (AddGroupConversation_handler (authenticated_as (user ''u1'') False False)
          \<lparr>Redis = cache_abc,
            MongoDB = store_of False [acl_of ''u1'', acl_of ''u2''] [Some (External ''insert failed'')]\<rparr>
          (group_request [''a'']))))
     = [InsertGroup \<lparr>GroupConversationID = ''g1'', Name = ''team'', Members = [''u2'', ''u1'']\<rparr>,
        UpdateACL ''u2'' [Push_publish_acl (Pattern ''conversations/group/g1/u2''),
                          Push_subscribe_acl (Pattern ''conversations/group/g1/+'')],
        UpdateACL ''u1'' [Push_publish_acl (Pattern ''conversations/group/g1/u1''),
                          Push_subscribe_acl (Pattern ''conversations/group/g1/+'')]]"
proof -
  let ?c = "authenticated_as (user ''u1'') False False"
  let ?env = "\<lparr>Redis = cache_abc,
            MongoDB = store_of False [acl_of ''u1'', acl_of ''u2''] [Some (External ''insert failed'')]\<rparr>"
  let ?r = "group_request [''a'']"
  let ?b = "\<lparr>body_Name = ''team'', body_Members = [''a'']\<rparr>"
  have tv: "IsTokenValid ?c ?env (header_token ?r) = (True, None)"
    by (simp add: authenticated_as_def)
  have au: "CheckAuthentication ?c ?env (header_token ?r) = ((user ''u1'', False, False, None), ?env)"
    by (simp add: authenticated_as_def)
  have bd: "decoded_body ?r = Inr ?b"
    by (simp add: group_request_def)
  have lk: "list_all (lookup_ok (Redis ?env)) (body_Members ?b)"
    by simp
  have ins: "driver_faults (MongoDB ?env) = Some (External ''insert failed'') # []"
    by (simp add: store_of_def)
  have ff: "list_all (\<lambda>f. f = None) (take (Suc (length (body_Members ?b))) ([] :: error option list))"
    by simp
  show ?thesis
    using AddGroupConversation_persist_error_discarded[OF tv au bd lk ins ff]
    by (simp add: Let_def resolved_ids_def NewGroupConversation_def authenticated_as_def user_def
        group_update_def store_of_def)
qed

subsection \<open>GetMappingForUsers\<close>

lemma collect_mappings_filter:
  "collect_mappings redis userIDs mappings =
     mappings @
     map (\<lambda>userID. \<lparr>OriginalUserID = userID,
                     InternalWaveUserID = fst (HGet redis (''mapping:'' @ userID) ''internalWaveUserID'')\<rparr>)
       (filter (\<lambda>userID. fst (HGet redis (''mapping:'' @ userID) ''internalWaveUserID'') \<noteq> [])
          userIDs)"
  by (induction userIDs arbitrary: mappings) (auto simp: case_prod_beta)

text \<open>
  Claim C10. For a valid, authenticated request with a decodable body,
  \<^verbatim>\<open>GetMappingForUsers\<close> succeeds and answers with one mapping per requested user whose
  lookup gives a nonempty value, in the order of the request. The error of a lookup is
  never read: a lookup that gives no value, because the mapping is missing or empty or
  because the lookup failed, is left out, and the request does not fail for it.
\<close>

theorem GetMappingForUsers_nonempty_in_order:
  assumes tv: "IsTokenValid c env (header_token r) = (True, None)"
    and au: "CheckAuthentication c env (header_token r) = ((infos, wasCached, wasTokenUpdated, None), env1)"
    and bd: "decoded_body r = Inr reqBody"
  shows "GetMappingForUsers c env r =
     ((None,
       Some (Response
         (Mappings_payload
           (map (\<lambda>userID. \<lparr>OriginalUserID = userID,
                   InternalWaveUserID =
                     fst (HGet (Redis env1) (''mapping:'' @ userID) ''internalWaveUserID'')\<rparr>)
              (filter (\<lambda>userID.
                   fst (HGet (Redis env1) (''mapping:'' @ userID) ''internalWaveUserID'') \<noteq> [])
                 (UserIDs reqBody))))
         ''/profiles/mappings'' CodeSuccess)),
      env1)"
  unfolding GetMappingForUsers_def
  by (simp add: tv au bd Let_def collect_mappings_filter)

theorem GetMappingForUsers_nonempty_in_order_witness:
  "GetMappingForUsers (authenticated_as (user ''u1'') False False)
     \<lparr>Redis = cache_abc, MongoDB = store_of False [] []\<rparr>
     (mapping_request [''a'', ''ghost'', ''b'']) =
   ((None, Some (Response
       (Mappings_payload [\<lparr>OriginalUserID = ''a'', InternalWaveUserID = ''u2''\<rparr>,
                          \<lparr>OriginalUserID = ''b'', InternalWaveUserID = ''u1''\<rparr>])
       ''/profiles/mappings'' CodeSuccess)),
    \<lparr>Redis = cache_abc, MongoDB = store_of False [] []\<rparr>)"
proof -
  let ?c = "authenticated_as (user ''u1'') False False"
  let ?env = "\<lparr>Redis = cache_abc, MongoDB = store_of False [] []\<rparr>"
  let ?r = "mapping_request [''a'', ''ghost'', ''b'']"
  have tv: "IsTokenValid ?c ?env (header_token ?r) = (True, None)"
    by (simp add: authenticated_as_def)
  have au: "CheckAuthentication ?c ?env (header_token ?r) = ((user ''u1'', False, False, None), ?env)"
    by (simp add: authenticated_as_def)
  have bd: "decoded_body ?r = Inr \<lparr>UserIDs = [''a'', ''ghost'', ''b'']\<rparr>"
    by (simp add: mapping_request_def)
  show ?thesis
    using GetMappingForUsers_nonempty_in_order[OF tv au bd] by simp
qed

end
